theory Spec2Isabelle
  imports Main
begin

section \<open>JavaScript values and HTTP responses\<close>

text \<open>
  A string that may be \<^verbatim>\<open>undefined\<close> is a \<open>string option\<close>.  JavaScript treats
  \<^verbatim>\<open>undefined\<close> and the empty string as falsy; \<open>truthy\<close> is the test behind
  \<^verbatim>\<open>if (x)\<close>, \<^verbatim>\<open>!x\<close> and \<^verbatim>\<open>x || y\<close> on such a value.
\<close>

definition truthy :: "string option \<Rightarrow> bool" where
  "truthy v = (case v of None \<Rightarrow> False | Some s \<Rightarrow> s \<noteq> [])"

definition js_or :: "string option \<Rightarrow> string option \<Rightarrow> string option" where
  "js_or a b = (if truthy a then a else b)"

text \<open>
  JSON bodies.  \<open>JDate\<close> is a \<^verbatim>\<open>Date\<close> (milliseconds), which \<^verbatim>\<open>res.json\<close> writes as
  an ISO string; a field whose value is \<^verbatim>\<open>undefined\<close> is left out of the object.
\<close>

datatype json =
    JNull
  | JBool bool
  | JNum int
  | JStr string
  | JDate nat
  | JArr "json list"
  | JObj "(string \<times> json) list"

definition opt_field :: "string \<Rightarrow> string option \<Rightarrow> (string \<times> json) list" where
  "opt_field k v = (case v of None \<Rightarrow> [] | Some s \<Rightarrow> [(k, JStr s)])"

fun jget :: "json \<Rightarrow> string \<Rightarrow> json option" where
  "jget (JObj kvs) k = map_of kvs k"
| "jget _ k = None"

text \<open>
  A request body is parsed JSON, so a field of it is any JSON value or absent.
  \<open>js_truthy\<close> is JavaScript's truthiness of such a value and \<open>js_typeof\<close> its
  \<^verbatim>\<open>typeof\<close>; \<open>toString\<close> is \<^verbatim>\<open>value.toString()\<close> of a string, a number or a
  boolean (the numbers of the model are the integers).
\<close>

fun js_truthy :: "json \<Rightarrow> bool" where
  "js_truthy JNull = False"
| "js_truthy (JBool b) = b"
| "js_truthy (JNum n) = (n \<noteq> 0)"
| "js_truthy (JStr t) = (t \<noteq> [])"
| "js_truthy (JDate d) = True"
| "js_truthy (JArr xs) = True"
| "js_truthy (JObj kvs) = True"

fun js_typeof :: "json \<Rightarrow> string" where
  "js_typeof JNull = ''object''"
| "js_typeof (JBool b) = ''boolean''"
| "js_typeof (JNum n) = ''number''"
| "js_typeof (JStr t) = ''string''"
| "js_typeof (JDate d) = ''object''"
| "js_typeof (JArr xs) = ''object''"
| "js_typeof (JObj kvs) = ''object''"

fun nat_toString :: "nat \<Rightarrow> string" where
  "nat_toString n =
     (if n < 10 then [char_of (48 + n)]
      else nat_toString (n div 10) @ [char_of (48 + n mod 10)])"

fun toString :: "json \<Rightarrow> string option" where
  "toString (JStr t) = Some t"
| "toString (JNum n) = Some (if n < 0 then ''-'' @ nat_toString (nat (- n)) else nat_toString (nat n))"
| "toString (JBool b) = Some (if b then ''true'' else ''false'')"
| "toString v = None"

text \<open>
  What a handler sends: \<^verbatim>\<open>res.status(n).json(b)\<close> (\<^verbatim>\<open>res.json(b)\<close> is status 200),
  a plain-text body, \<^verbatim>\<open>res.redirect\<close>, or \<^verbatim>\<open>res.sendFile\<close>.
\<close>

datatype response =
    Json nat json
  | Text nat string
  | Redirect string
  | SendFile string

fun status :: "response \<Rightarrow> nat" where
  "status (Json n b) = n"
| "status (Text n t) = n"
| "status (Redirect p) = 302"
| "status (SendFile f) = 200"

fun body :: "response \<Rightarrow> json" where
  "body (Json n b) = b"
| "body (Text n t) = JStr t"
| "body (Redirect p) = JNull"
| "body (SendFile f) = JNull"

text \<open>
  A thrown JavaScript error, as far as the handlers read it: \<^verbatim>\<open>message\<close>,
  \<^verbatim>\<open>code\<close>, and, for an axios error that carries an HTTP response,
  \<^verbatim>\<open>JSON.stringify(error.response.data)\<close>.
\<close>

record js_error =
  err_message :: string
  err_code :: "string option"
  err_response_data :: "string option"

section \<open>Configuration (server.js, lines 18-32)\<close>

text \<open>
  The environment variables the code reads, and Mongoose's \<^verbatim>\<open>strictQuery\<close> setting,
  which the code leaves at the library's default (on in Mongoose 6, off in 5, 7 and 8).
\<close>

record env =
  env_FLASK_URL :: "string option"
  env_FLASK_SERVICE_URL :: "string option"
  env_NODE_ENV :: "string option"
  strictQuery :: bool

definition FLASK_URL :: "env \<Rightarrow> string option" where
  "FLASK_URL e = js_or (env_FLASK_URL e) (env_FLASK_SERVICE_URL e)"

section \<open>Documents and the database\<close>

text \<open>
  The two Mongoose models.  Their schema files are not part of the sources; the fields
  are those the code reads and writes: a \<^verbatim>\<open>User\<close> has \<^verbatim>\<open>_id\<close>, \<^verbatim>\<open>email\<close>,
  \<^verbatim>\<open>password\<close>, \<^verbatim>\<open>googleId\<close>, \<^verbatim>\<open>name\<close>; a \<^verbatim>\<open>UrlCheck\<close> has \<^verbatim>\<open>_id\<close> and, as the
  comment at line 184 of server.js lists them, \<^verbatim>\<open>url\<close>, \<^verbatim>\<open>prediction\<close>,
  \<^verbatim>\<open>confidence\<close>, \<^verbatim>\<open>checkedAt\<close> (default: now), \<^verbatim>\<open>user\<close>.  Object ids are natural
  numbers drawn from a counter, so that every \<^verbatim>\<open>new\<close> document gets a fresh one.
\<close>

record user_doc =
  uid :: nat
  email :: "string option"
  password :: "string option"
  googleId :: "string option"
  name :: "string option"

record url_check =
  cid :: nat
  url :: string
  prediction :: string
  confidence :: int
  checkedAt :: nat
  user :: nat

record store =
  users :: "user_doc list"
  urlchecks :: "url_check list"
  next_id :: nat

text \<open>
  What the outside world does during one request: the predictor's answer to the n-th
  \<^verbatim>\<open>axios.post\<close>, whether a database read or a \<^verbatim>\<open>save()\<close> throws (and with which
  error), what \<^verbatim>\<open>bcrypt.hash(p, 10)\<close> returns (it draws a random salt) and what
  \<^verbatim>\<open>bcrypt.compare\<close> answers, and the clock.
\<close>

record flask_data =
  res_prediction :: string
  res_confidence :: int

record io =
  axios_post :: "nat \<Rightarrow> js_error + flask_data"
  find_error :: "js_error option"
  save_error :: "js_error option"
  bcrypt_hash :: "string \<Rightarrow> string"
  bcrypt_compare :: "string \<Rightarrow> string \<Rightarrow> bool"
  now :: nat

section \<open>The predictor client (server.js, lines 153-172)\<close>

record payload =
  p_url :: string
  p_user :: string

datatype event =
    Post string payload
  | Warn nat
  | Sleep nat

text \<open>
  The loop \<^verbatim>\<open>for (attempt = 1; attempt <= maxAttempts; attempt++)\<close>.  The result is the
  thrown error, or the response data, or \<open>None\<close> when the loop ends without returning
  (the function then returns \<^verbatim>\<open>undefined\<close>); the events are the requests sent, the
  warnings logged and the back-off waits, in order.
\<close>

function callFlaskPredict_from ::
  "(nat \<Rightarrow> js_error + flask_data) \<Rightarrow> string \<Rightarrow> payload \<Rightarrow> nat \<Rightarrow> nat
     \<Rightarrow> (js_error + flask_data option) \<times> event list" where
  "callFlaskPredict_from post base pl maxAttempts attempt =
     (if attempt \<le> maxAttempts then
        (case post attempt of
           Inr r \<Rightarrow> (Inr (Some r), [Post (base @ ''/predict'') pl])
         | Inl err \<Rightarrow>
             if attempt = maxAttempts
             then (Inl err, [Post (base @ ''/predict'') pl, Warn attempt])
             else
               (let (res, evs) = callFlaskPredict_from post base pl maxAttempts (attempt + 1)
                in (res, [Post (base @ ''/predict'') pl, Warn attempt, Sleep (250 * attempt)] @ evs)))
      else (Inr None, []))"
  by pat_completeness auto
termination
  by (relation "measure (\<lambda>(post, base, pl, maxAttempts, attempt). maxAttempts + 1 - attempt)") auto

definition callFlaskPredict ::
  "(nat \<Rightarrow> js_error + flask_data) \<Rightarrow> string \<Rightarrow> string \<Rightarrow> string
     \<Rightarrow> (js_error + flask_data option) \<times> event list" where
  "callFlaskPredict post base targetUrl userId =
     callFlaskPredict_from post base \<lparr>p_url = targetUrl, p_user = userId\<rparr> 2 1"

section \<open>POST /api/scan-url (server.js, lines 138-224)\<close>

text \<open>\<^verbatim>\<open>_id.toString()\<close>: the id written out (here in decimal).\<close>

fun oid_toString :: "nat \<Rightarrow> string" where
  "oid_toString n =
     (if n < 10 then [char_of (48 + n)]
      else oid_toString (n div 10) @ [char_of (48 + n mod 10)])"

definition errMsg :: "js_error \<Rightarrow> string" where
  "errMsg error =
     (if err_message error \<noteq> [] then err_message error
      else if truthy (err_response_data error) then the (err_response_data error)
      else ''Unknown scan error'')"

definition scan_failed :: "js_error \<Rightarrow> response" where
  "scan_failed error =
     Json 500 (JObj [(''message'', JStr ''Scan failed''), (''error'', JStr (errMsg error))])"

definition scan_ok :: "io \<Rightarrow> string \<Rightarrow> flask_data \<Rightarrow> response" where
  "scan_ok w u result =
     Json 200 (JObj
       [(''url'', JStr u),
        (''prediction'', JStr (res_prediction result)),
        (''confidence'', JNum (res_confidence result)),
        (''timestamp'', JDate (now w)),
        (''message'', JStr (if res_prediction result = ''phishing''
                            then ''Potential phishing site detected!''
                            else ''URL appears to be legitimate.''))])"

definition undefined_data_error :: js_error where
  "undefined_data_error =
     \<lparr>err_message = ''Cannot read properties of undefined (reading data)'',
      err_code = None, err_response_data = None\<rparr>"

text \<open>
  The handler.  \<open>req_user\<close> is \<^verbatim>\<open>req.user\<close> (\<^verbatim>\<open>req.isAuthenticated()\<close> holds exactly
  when it is set) and \<open>body_url\<close> is \<^verbatim>\<open>req.body.url\<close>.  It returns the response, the
  database afterwards and the predictor client's events.
\<close>

definition scan_url ::
  "env \<Rightarrow> io \<Rightarrow> store \<Rightarrow> user_doc option \<Rightarrow> string option \<Rightarrow> response \<times> store \<times> event list" where
  "scan_url e w s req_user body_url =
     (if \<not> truthy body_url then
        (Json 400 (JObj [(''message'', JStr ''URL is required'')]), s, [])
      else if \<not> truthy (FLASK_URL e) then
        (Json 503 (JObj [(''message'', JStr ''AI service is not configured.''),
                         (''error'', JStr ''FLASK_SERVICE_NOT_CONFIGURED'')]), s, [])
      else
        (let u = the body_url;
             (flaskResponse, evs) =
               callFlaskPredict (axios_post w) (the (FLASK_URL e)) u
                 (case req_user of Some usr \<Rightarrow> oid_toString (uid usr) | None \<Rightarrow> ''anonymous'')
         in case flaskResponse of
              Inl error \<Rightarrow> (scan_failed error, s, evs)
            | Inr None \<Rightarrow> (scan_failed undefined_data_error, s, evs)
            | Inr (Some result) \<Rightarrow>
                (case req_user of
                   None \<Rightarrow> (scan_ok w u result, s, evs)
                 | Some usr \<Rightarrow>
                     (let newCheck =
                            \<lparr>cid = next_id s, url = u, prediction = res_prediction result,
                             confidence = res_confidence result, checkedAt = now w,
                             user = uid usr\<rparr>;
                          s1 = s\<lparr>next_id := next_id s + 1\<rparr>
                      in case save_error w of
                           Some error \<Rightarrow> (scan_failed error, s1, evs)
                         | None \<Rightarrow>
                             (scan_ok w u result,
                              s1\<lparr>urlchecks := urlchecks s1 @ [newCheck]\<rparr>, evs)))))"

section \<open>POST /api/signup (server.js, lines 93-107)\<close>

text \<open>
  \<^verbatim>\<open>User.findOne({ email })\<close> returns the first stored user whose email equals the
  body's; an \<^verbatim>\<open>undefined\<close> email reaches MongoDB as \<^verbatim>\<open>null\<close>, which matches the
  users that have none.  \<^verbatim>\<open>bcrypt.hash\<close> rejects a password that is not a string.
  The request body's fields are strings or absent.
\<close>

definition signup_error :: "js_error \<Rightarrow> response" where
  "signup_error err =
     Json 500 (JObj [(''message'', JStr ''Signup error''), (''error'', JStr (err_message err))])"

definition illegal_arguments :: js_error where
  "illegal_arguments =
     \<lparr>err_message = ''Illegal arguments: undefined, number'',
      err_code = None, err_response_data = None\<rparr>"

definition signup ::
  "io \<Rightarrow> store \<Rightarrow> string option \<Rightarrow> string option \<Rightarrow> string option \<Rightarrow> response \<times> store" where
  "signup w s body_email body_password body_name =
     (case find_error w of
        Some err \<Rightarrow> (signup_error err, s)
      | None \<Rightarrow>
          (case find (\<lambda>usr. email usr = body_email) (users s) of
             Some existing \<Rightarrow>
               (Json 409 (JObj [(''message'', JStr ''Email already exists'')]), s)
           | None \<Rightarrow>
               (case body_password of
                  None \<Rightarrow> (signup_error illegal_arguments, s)
                | Some pw \<Rightarrow>
                    (let hashedPassword = bcrypt_hash w pw;
                         newUser =
                           \<lparr>uid = next_id s, email = body_email,
                            password = Some hashedPassword, googleId = None,
                            name = body_name\<rparr>;
                         s1 = s\<lparr>next_id := next_id s + 1\<rparr>
                     in case save_error w of
                          Some err \<Rightarrow> (signup_error err, s1)
                        | None \<Rightarrow>
                            (Json 201 (JObj [(''message'', JStr ''Signup success'')]),
                             s1\<lparr>users := users s1 @ [newUser]\<rparr>)))))"

section \<open>The passport strategies (passport.js)\<close>

text \<open>
  What a verify callback hands to \<^verbatim>\<open>done\<close>: \<^verbatim>\<open>done(err)\<close>,
  \<^verbatim>\<open>done(null, false, { message })\<close> or \<^verbatim>\<open>done(null, user)\<close>.
\<close>

datatype verify_result =
    Done_err js_error
  | Done_fail string
  | Done_ok user_doc

text \<open>
  The local strategy's verify callback (lines 336-353 of the joined sources).  Its two
  arguments are the values passport-local found in the request, which need not be
  strings.  \<^verbatim>\<open>User.findOne({ email })\<close> casts the filter value to the type of the
  schema's \<^verbatim>\<open>email\<close> path, a string, and throws a CastError for a value it cannot
  cast.  \<^verbatim>\<open>bcrypt.compare(s, hash)\<close> rejects with "Illegal arguments" unless both
  arguments are strings; the rejection is caught and handed to \<^verbatim>\<open>done\<close>.
\<close>

definition cast_error :: js_error where
  "cast_error =
     \<lparr>err_message = ''Cast to string failed'', err_code = None, err_response_data = None\<rparr>"

definition compare :: "io \<Rightarrow> json \<Rightarrow> string \<Rightarrow> js_error + bool" where
  "compare w pw hash =
     (case pw of
        JStr p \<Rightarrow> Inr (bcrypt_compare w p hash)
      | _ \<Rightarrow> Inl \<lparr>err_message = ''Illegal arguments: '' @ js_typeof pw @ '', string'',
                   err_code = None, err_response_data = None\<rparr>)"

definition local_verify :: "io \<Rightarrow> store \<Rightarrow> json \<Rightarrow> json \<Rightarrow> verify_result" where
  "local_verify w s em pw =
     (case find_error w of
        Some err \<Rightarrow> Done_err err
      | None \<Rightarrow>
          (case toString em of
             None \<Rightarrow> Done_err cast_error
           | Some em_str \<Rightarrow>
               (case find (\<lambda>usr. email usr = Some em_str) (users s) of
                  None \<Rightarrow> Done_fail ''Incorrect email''
                | Some usr \<Rightarrow>
                    if \<not> truthy (password usr) then Done_fail ''Please log in with Google''
                    else (case compare w pw (the (password usr)) of
                            Inl err \<Rightarrow> Done_err err
                          | Inr match \<Rightarrow>
                              if \<not> match then Done_fail ''Incorrect password''
                              else Done_ok usr))))"

text \<open>
  The Google strategy's verify callback (lines 367-395).  \<open>profile_email\<close> is
  \<^verbatim>\<open>profile.emails?.[0]?.value\<close>.  Saving the linked user writes the one modified
  path, \<^verbatim>\<open>googleId\<close>, to the stored document with the same \<^verbatim>\<open>_id\<close>.
\<close>

record profile =
  profile_id :: string
  profile_displayName :: "string option"
  profile_email :: "string option"

definition google_verify :: "io \<Rightarrow> store \<Rightarrow> profile \<Rightarrow> verify_result \<times> store" where
  "google_verify w s pr =
     (case find_error w of
        Some err \<Rightarrow> (Done_err err, s)
      | None \<Rightarrow>
          (case find (\<lambda>usr. googleId usr = Some (profile_id pr)) (users s) of
             Some usr \<Rightarrow> (Done_ok usr, s)
           | None \<Rightarrow>
               (let em = profile_email pr in
                case (if truthy em then find (\<lambda>usr. email usr = em) (users s) else None) of
                  Some existingEmailUser \<Rightarrow>
                    (case save_error w of
                       Some err \<Rightarrow> (Done_err err, s)
                     | None \<Rightarrow>
                         (Done_ok (existingEmailUser\<lparr>googleId := Some (profile_id pr)\<rparr>),
                          s\<lparr>users :=
                              map (\<lambda>v. if uid v = uid existingEmailUser
                                        then v\<lparr>googleId := Some (profile_id pr)\<rparr> else v)
                                (users s)\<rparr>))
                | None \<Rightarrow>
                    (let newUser =
                           \<lparr>uid = next_id s, email = em, password = None,
                            googleId = Some (profile_id pr),
                            name = profile_displayName pr\<rparr>;
                         s1 = s\<lparr>next_id := next_id s + 1\<rparr>
                     in case save_error w of
                          Some err \<Rightarrow> (Done_err err, s1)
                        | None \<Rightarrow> (Done_ok newUser, s1\<lparr>users := users s1 @ [newUser]\<rparr>)))))"

text \<open>
  \<^verbatim>\<open>deserializeUser\<close> (lines 404-411): the session holds the user's id
  (\<^verbatim>\<open>serializeUser\<close> stores \<^verbatim>\<open>user.id\<close>), and every request looks the user up again.
\<close>

definition deserializeUser :: "io \<Rightarrow> store \<Rightarrow> nat \<Rightarrow> js_error + user_doc option" where
  "deserializeUser w s i =
     (case find_error w of
        Some err \<Rightarrow> Inl err
      | None \<Rightarrow> Inr (find (\<lambda>usr. uid usr = i) (users s)))"

section \<open>Routes that authenticate (server.js, lines 109-133 and 296-306)\<close>

text \<open>The application's error handler (lines 300-306).\<close>

definition error_handler :: "env \<Rightarrow> js_error \<Rightarrow> response" where
  "error_handler e error =
     Json 500 (JObj
       [(''message'', JStr ''Internal server error''),
        (''error'', JStr (if env_NODE_ENV e = Some ''development''
                          then err_message error else ''Something went wrong''))])"

text \<open>
  \<^verbatim>\<open>req.user.name || req.user.email.split("@")[0]\<close>; reading \<^verbatim>\<open>split\<close> of an
  \<^verbatim>\<open>undefined\<close> email throws a TypeError.
\<close>

definition undefined_split_error :: js_error where
  "undefined_split_error =
     \<lparr>err_message = ''Cannot read properties of undefined (reading split)'',
      err_code = None, err_response_data = None\<rparr>"

definition username :: "user_doc \<Rightarrow> js_error + string" where
  "username usr =
     (if truthy (name usr) then Inr (the (name usr))
      else case email usr of
             None \<Rightarrow> Inl undefined_split_error
           | Some em \<Rightarrow> Inr (takeWhile (\<lambda>c. c \<noteq> CHR ''@'') em))"

text \<open>
  How passport-local reads a credential: \<^verbatim>\<open>lookup(req.body, field) ||
  lookup(req.query, field)\<close>, where \<^verbatim>\<open>lookup\<close> returns the field's value unless it
  is absent or an object (an array and \<^verbatim>\<open>null\<close> are objects), for which it returns
  \<^verbatim>\<open>null\<close>.  A query parameter is a string or absent.
\<close>

definition lookup :: "json option \<Rightarrow> json option" where
  "lookup prop =
     (case prop of
        None \<Rightarrow> None
      | Some v \<Rightarrow> if js_typeof v \<noteq> ''object'' then Some v else None)"

definition credential :: "json option \<Rightarrow> string option \<Rightarrow> json option" where
  "credential body_field query_field =
     (case lookup body_field of
        Some v \<Rightarrow> if js_truthy v then Some v else lookup (map_option JStr query_field)
      | None \<Rightarrow> lookup (map_option JStr query_field))"

definition missing :: "json option \<Rightarrow> bool" where
  "missing c = (case c of None \<Rightarrow> True | Some v \<Rightarrow> \<not> js_truthy v)"

text \<open>
  \<^verbatim>\<open>app.post("/api/login", passport.authenticate("local"), handler)\<close>.  The route passes
  no options to \<^verbatim>\<open>passport.authenticate\<close>, so the library's defaults apply: the local
  strategy answers 400 when the email or the password it read is falsy
  (\<^verbatim>\<open>!username || !password\<close>), without calling the verify callback; an error given to
  \<^verbatim>\<open>done\<close> goes to the error handler; a failure ends the request with status 401 and
  the status text as body, and the \<^verbatim>\<open>{ message }\<close> given to \<^verbatim>\<open>done\<close> is not sent
  (neither \<^verbatim>\<open>failureMessage\<close> nor \<^verbatim>\<open>failureFlash\<close> is set); a success stores the
  serialized user in the session and runs the handler.  The second component is the
  session afterwards.
\<close>

definition post_api_login ::
  "env \<Rightarrow> io \<Rightarrow> store \<Rightarrow> nat option \<Rightarrow> json option \<Rightarrow> json option
     \<Rightarrow> string option \<Rightarrow> string option \<Rightarrow> response \<times> nat option" where
  "post_api_login e w s sess body_email body_password query_email query_password =
     (let username_read = credential body_email query_email;
          password_read = credential body_password query_password
      in if missing username_read \<or> missing password_read
         then (Text 400 ''Bad Request'', sess)
         else case local_verify w s (the username_read) (the password_read) of
                Done_err err \<Rightarrow> (error_handler e err, sess)
              | Done_fail info \<Rightarrow> (Text 401 ''Unauthorized'', sess)
              | Done_ok usr \<Rightarrow>
                  (case username usr of
                     Inl err \<Rightarrow> (error_handler e err, Some (uid usr))
                   | Inr n \<Rightarrow>
                       (Json 200 (JObj [(''message'', JStr ''Login success''),
                                        (''username'', JStr n)]),
                        Some (uid usr))))"

text \<open>
  \<^verbatim>\<open>GET /auth/google/callback\<close>, once Google has returned the profile:
  \<^verbatim>\<open>passport.authenticate("google", { failureRedirect: "/login" })\<close>, then a redirect
  to the home page.
\<close>

definition google_callback ::
  "env \<Rightarrow> io \<Rightarrow> store \<Rightarrow> nat option \<Rightarrow> profile \<Rightarrow> response \<times> store \<times> nat option" where
  "google_callback e w s sess pr =
     (case google_verify w s pr of
        (Done_err err, s') \<Rightarrow> (error_handler e err, s', sess)
      | (Done_fail info, s') \<Rightarrow> (Redirect ''/login'', s', sess)
      | (Done_ok usr, s') \<Rightarrow> (Redirect ''/'', s', Some (uid usr)))"

definition current_user :: "env \<Rightarrow> user_doc option \<Rightarrow> response" where
  "current_user e req_user =
     (case req_user of
        Some usr \<Rightarrow>
          (case username usr of
             Inl err \<Rightarrow> error_handler e err
           | Inr n \<Rightarrow>
               Json 200 (JObj ([(''loggedIn'', JBool True), (''username'', JStr n)]
                               @ opt_field ''email'' (email usr))))
      | None \<Rightarrow> Json 200 (JObj [(''loggedIn'', JBool False)]))"

section \<open>GET /api/recent-scans (server.js, lines 229-256)\<close>

text \<open>
  A query filter is a list of conditions \<^verbatim>\<open>path: value\<close>.  A stored \<^verbatim>\<open>UrlCheck\<close> has
  the paths of its schema and no other.  A condition on a schema path holds when the
  document has that value there.  A condition on a path the schema does not have is
  removed from the filter when \<^verbatim>\<open>strictQuery\<close> is on; when it is off the condition
  reaches MongoDB, where no stored document has the field.
\<close>

datatype bson = BId nat | BStr string | BNum int | BDate nat

definition url_check_get :: "url_check \<Rightarrow> string \<Rightarrow> bson option" where
  "url_check_get d k =
     (if k = ''_id'' then Some (BId (cid d))
      else if k = ''url'' then Some (BStr (url d))
      else if k = ''prediction'' then Some (BStr (prediction d))
      else if k = ''confidence'' then Some (BNum (confidence d))
      else if k = ''checkedAt'' then Some (BDate (checkedAt d))
      else if k = ''user'' then Some (BId (user d))
      else None)"

definition matches :: "bool \<Rightarrow> (string \<times> bson) list \<Rightarrow> url_check \<Rightarrow> bool" where
  "matches strict flt d =
     list_all (\<lambda>(k, v). case url_check_get d k of
                           Some x \<Rightarrow> x = v
                         | None \<Rightarrow> strict) flt"

definition UrlCheck_find :: "env \<Rightarrow> store \<Rightarrow> (string \<times> bson) list \<Rightarrow> url_check list" where
  "UrlCheck_find e s flt = filter (matches (strictQuery e) flt) (urlchecks s)"

definition countDocuments :: "env \<Rightarrow> store \<Rightarrow> (string \<times> bson) list \<Rightarrow> int" where
  "countDocuments e s flt = int (length (UrlCheck_find e s flt))"

text \<open>\<^verbatim>\<open>.sort({ checkedAt: -1 })\<close>: latest first.\<close>

definition sort_checkedAt_desc :: "url_check list \<Rightarrow> url_check list" where
  "sort_checkedAt_desc ds = rev (sort_key checkedAt ds)"

text \<open>\<^verbatim>\<open>.select("url prediction confidence checkedAt")\<close>, which keeps \<^verbatim>\<open>_id\<close> as well.\<close>

definition select_scan :: "url_check \<Rightarrow> json" where
  "select_scan d =
     JObj [(''_id'', JNum (int (cid d))), (''url'', JStr (url d)),
           (''prediction'', JStr (prediction d)), (''confidence'', JNum (confidence d)),
           (''checkedAt'', JDate (checkedAt d))]"

definition recentScans :: "env \<Rightarrow> store \<Rightarrow> user_doc \<Rightarrow> url_check list" where
  "recentScans e s usr =
     take 10 (sort_checkedAt_desc (UrlCheck_find e s [(''user'', BId (uid usr))]))"

definition recent_scans :: "env \<Rightarrow> io \<Rightarrow> store \<Rightarrow> user_doc option \<Rightarrow> response" where
  "recent_scans e w s req_user =
     (case req_user of
        None \<Rightarrow>
          Json 200 (JObj [(''scans'', JArr []),
                          (''message'', JStr ''Login to see scan history''),
                          (''total'', JNum 0)])
      | Some usr \<Rightarrow>
          (case find_error w of
             Some error \<Rightarrow> Json 500 (JObj [(''message'', JStr ''Error fetching scan history'')])
           | None \<Rightarrow>
               (let totalScans = countDocuments e s [(''userId'', BId (uid usr))];
                    phishingCount =
                      countDocuments e s
                        [(''userId'', BId (uid usr)), (''prediction'', BStr ''phishing'')]
                in Json 200 (JObj
                     [(''scans'', JArr (map select_scan (recentScans e s usr))),
                      (''total'', JNum totalScans),
                      (''phishingFound'', JNum phishingCount),
                      (''legitimateFound'', JNum (totalScans - phishingCount))]))))"

section \<open>The application\<close>

text \<open>
  One request against the application: the session middleware first
  (\<^verbatim>\<open>passport.session()\<close> deserializes the session's user; an error goes to the error
  handler, a user that no longer exists leaves the request anonymous and clears the
  session), then the route.  The state is the database and the client's session, which
  holds a user id or nothing.  \<^verbatim>\<open>GET /auth/google\<close> (a redirect to Google),
  \<^verbatim>\<open>GET /api/health\<close> and the static files touch neither and are left out.
\<close>

datatype request =
    GET_root
  | GET_homepage
  | GET_signup
  | GET_login
  | GET_phishing
  | GET_dashboard
  | POST_signup "string option" "string option" "string option"
  | POST_login "json option" "json option" "string option" "string option"
  | GET_google_callback profile
  | GET_current_user
  | POST_scan_url "string option"
  | GET_recent_scans
  | GET_logout
  | Unmatched

fun route ::
  "env \<Rightarrow> io \<Rightarrow> store \<Rightarrow> nat option \<Rightarrow> user_doc option \<Rightarrow> request
     \<Rightarrow> response \<times> store \<times> nat option" where
  "route e w s sess req_user GET_root = (SendFile ''homepage.html'', s, sess)"
| "route e w s sess req_user GET_homepage = (SendFile ''homepage.html'', s, sess)"
| "route e w s sess req_user GET_signup = (SendFile ''signup.html'', s, sess)"
| "route e w s sess req_user GET_login = (SendFile ''login.html'', s, sess)"
| "route e w s sess req_user GET_phishing =
     (if req_user = None then (Redirect ''/login'', s, sess)
      else (SendFile ''phishing.html'', s, sess))"
| "route e w s sess req_user GET_dashboard =
     (if req_user = None then (Redirect ''/login'', s, sess)
      else (SendFile ''dashboard.html'', s, sess))"
| "route e w s sess req_user (POST_signup body_email body_password body_name) =
     (let (res, s') = signup w s body_email body_password body_name in (res, s', sess))"
| "route e w s sess req_user (POST_login body_email body_password query_email query_password) =
     (let (res, sess') =
            post_api_login e w s sess body_email body_password query_email query_password
      in (res, s, sess'))"
| "route e w s sess req_user (GET_google_callback pr) = google_callback e w s sess pr"
| "route e w s sess req_user GET_current_user = (current_user e req_user, s, sess)"
| "route e w s sess req_user (POST_scan_url body_url) =
     (let (res, s', evs) = scan_url e w s req_user body_url in (res, s', sess))"
| "route e w s sess req_user GET_recent_scans = (recent_scans e w s req_user, s, sess)"
| "route e w s sess req_user GET_logout = (Redirect ''/'', s, None)"
| "route e w s sess req_user Unmatched =
     (Json 404 (JObj [(''message'', JStr ''Page not found'')]), s, sess)"

definition handle ::
  "env \<Rightarrow> io \<Rightarrow> store \<times> nat option \<Rightarrow> request \<Rightarrow> response \<times> store \<times> nat option" where
  "handle e w st req =
     (case st of (s, sess) \<Rightarrow>
        (case (case sess of None \<Rightarrow> Inr None | Some i \<Rightarrow> deserializeUser w s i) of
           Inl err \<Rightarrow> (error_handler e err, s, sess)
         | Inr req_user \<Rightarrow>
             route e w s (if req_user = None then None else sess) req_user req))"

section \<open>Runs of the application\<close>

text \<open>
  A run handles requests one after the other, each with what the outside world does
  during it, starting from a database and a client session.
\<close>

fun run :: "env \<Rightarrow> (io \<times> request) list \<Rightarrow> store \<times> nat option \<Rightarrow> store \<times> nat option" where
  "run e [] st = st"
| "run e ((w, req) # steps) st = run e steps (snd (handle e w st req))"

text \<open>
  A user has an authentication path when it stores a password hash or a Google id.
\<close>

definition auth_path :: "user_doc \<Rightarrow> bool" where
  "auth_path usr = (password usr \<noteq> None \<or> googleId usr \<noteq> None)"

text \<open>
  A well-formed database: the users' ids are distinct and below the id counter, and an
  email that is not empty identifies its user.
\<close>

definition store_wf :: "store \<Rightarrow> bool" where
  "store_wf s \<longleftrightarrow>
     distinct (map uid (users s))
     \<and> (\<forall>u\<in>set (users s). uid u < next_id s)
     \<and> (\<forall>u\<in>set (users s). \<forall>v\<in>set (users s).
           truthy (email u) \<longrightarrow> email v = email u \<longrightarrow> uid v = uid u)"

definition empty_store :: store where
  "empty_store = \<lparr>users = [], urlchecks = [], next_id = 0\<rparr>"

section \<open>Example data\<close>

text \<open>A configured server, a predictor that answers or refuses, and a database with one user.\<close>

definition ex_env :: env where
  "ex_env = \<lparr>env_FLASK_URL = Some ''http://flask:7000'', env_FLASK_SERVICE_URL = None,
             env_NODE_ENV = None, strictQuery = False\<rparr>"

definition ex_env_unconfigured :: env where
  "ex_env_unconfigured = ex_env\<lparr>env_FLASK_URL := None\<rparr>"

definition ex_refused :: js_error where
  "ex_refused = \<lparr>err_message = ''connect ECONNREFUSED 127.0.0.1:7000'',
                 err_code = Some ''ECONNREFUSED'', err_response_data = None\<rparr>"

definition ex_io :: io where
  "ex_io = \<lparr>axios_post = (\<lambda>n. Inr \<lparr>res_prediction = ''phishing'', res_confidence = 97\<rparr>),
            find_error = None, save_error = None,
            bcrypt_hash = (\<lambda>p. ''$2a$10$'' @ p),
            bcrypt_compare = (\<lambda>p h. h = ''$2a$10$'' @ p),
            now = 1000\<rparr>"

definition ex_io_predictor_down :: io where
  "ex_io_predictor_down = ex_io\<lparr>axios_post := (\<lambda>n. Inl ex_refused)\<rparr>"

definition ex_io_save_fails :: io where
  "ex_io_save_fails = ex_io\<lparr>save_error := Some ex_refused\<rparr>"

definition alice :: user_doc where
  "alice = \<lparr>uid = 1, email = Some ''alice@example.com'', password = Some ''$2a$10$secret'',
            googleId = None, name = Some ''Alice''\<rparr>"

definition ex_store :: store where
  "ex_store = \<lparr>users = [alice], urlchecks = [], next_id = 2\<rparr>"

definition bob :: user_doc where
  "bob = \<lparr>uid = 2, email = Some ''bob@example.com'', password = None,
          googleId = Some ''g-108'', name = Some ''Bob''\<rparr>"

definition ex_profile_alice :: profile where
  "ex_profile_alice = \<lparr>profile_id = ''g-205'', profile_displayName = Some ''Alice A'',
                       profile_email = Some ''alice@example.com''\<rparr>"

definition ex_profile_carol :: profile where
  "ex_profile_carol = \<lparr>profile_id = ''g-300'', profile_displayName = Some ''Carol'',
                       profile_email = Some ''carol@example.com''\<rparr>"

definition ex_store2 :: store where
  "ex_store2 = \<lparr>users = [alice, bob], urlchecks = [], next_id = 3\<rparr>"

definition ex_scan_alice :: url_check where
  "ex_scan_alice = \<lparr>cid = 10, url = ''http://a.test'', prediction = ''phishing'',
                    confidence = 97, checkedAt = 500, user = 1\<rparr>"

definition ex_scan_bob :: url_check where
  "ex_scan_bob = \<lparr>cid = 11, url = ''http://b.test'', prediction = ''legitimate'',
                  confidence = 88, checkedAt = 600, user = 2\<rparr>"

definition ex_store_scans :: store where
  "ex_store_scans = \<lparr>users = [alice, bob], urlchecks = [ex_scan_alice, ex_scan_bob],
                     next_id = 12\<rparr>"

definition ex_env_strict :: env where
  "ex_env_strict = ex_env\<lparr>strictQuery := True\<rparr>"

section \<open>Properties of the scan route\<close>

lemmas ex_defs = ex_env_def ex_env_unconfigured_def ex_refused_def ex_io_def
  ex_io_predictor_down_def ex_io_save_fails_def alice_def ex_store_def
  bob_def ex_profile_alice_def ex_profile_carol_def ex_store2_def
  ex_scan_alice_def ex_scan_bob_def ex_store_scans_def ex_env_strict_def

lemma callFlaskPredict_unfold:
  "callFlaskPredict post base t i =
     (let P = Post (base @ ''/predict'') \<lparr>p_url = t, p_user = i\<rparr> in
      case post 1 of
        Inr r \<Rightarrow> (Inr (Some r), [P])
      | Inl e1 \<Rightarrow>
          (case post 2 of
             Inr r \<Rightarrow> (Inr (Some r), [P, Warn 1, Sleep 250, P])
           | Inl e2 \<Rightarrow> (Inl e2, [P, Warn 1, Sleep 250, P, Warn 2])))"
  unfolding callFlaskPredict_def
  apply (subst callFlaskPredict_from.simps)
  apply (subst callFlaskPredict_from.simps)
  apply (simp add: Let_def numeral_2_eq_2 split: sum.splits)
  done

text \<open>
  Claim C1, as the code has it.  \<^verbatim>\<open>await newCheck.save()\<close> stands inside the handler's
  one \<^verbatim>\<open>try\<close> block, before \<^verbatim>\<open>res.json\<close>.  When the predictor has answered for an
  authenticated caller and the save throws, the response is the 500 "Scan failed" of
  the \<^verbatim>\<open>catch\<close> block, carrying the save error's message, and no record is stored.
\<close>

theorem scan_save_failure_gives_500:
  assumes "truthy body_url" and "truthy (FLASK_URL e)"
    and "axios_post w 1 = Inr result \<or> (\<exists>e1. axios_post w 1 = Inl e1 \<and> axios_post w 2 = Inr result)"
    and "save_error w = Some err"
  shows "fst (scan_url e w s (Some usr) body_url) =
           Json 500 (JObj [(''message'', JStr ''Scan failed''), (''error'', JStr (errMsg err))])
         \<and> urlchecks (fst (snd (scan_url e w s (Some usr) body_url))) = urlchecks s"
  using assms
  by (auto simp: scan_url_def callFlaskPredict_unfold Let_def scan_failed_def)

theorem scan_save_failure_gives_500_witness:
  "fst (scan_url ex_env ex_io_save_fails ex_store (Some alice) (Some ''http://x.test'')) =
     Json 500 (JObj [(''message'', JStr ''Scan failed''),
                     (''error'', JStr ''connect ECONNREFUSED 127.0.0.1:7000'')])
   \<and> urlchecks (fst (snd (scan_url ex_env ex_io_save_fails ex_store (Some alice)
                              (Some ''http://x.test'')))) = []"
  using scan_save_failure_gives_500 [of "Some ''http://x.test''" ex_env ex_io_save_fails
      "\<lparr>res_prediction = ''phishing'', res_confidence = 97\<rparr>" ex_refused ex_store alice]
  by (simp add: ex_defs truthy_def FLASK_URL_def js_or_def errMsg_def)

text \<open>
  Claim C1 as stated fails: the predictor answers on the first attempt, the save
  throws, and the client gets status 500 with no prediction in the body.
\<close>

theorem scan_save_failure_counterexample:
  "axios_post ex_io_save_fails 1 = Inr \<lparr>res_prediction = ''phishing'', res_confidence = 97\<rparr>
   \<and> status (fst (scan_url ex_env ex_io_save_fails ex_store (Some alice)
                     (Some ''http://x.test''))) = 500
   \<and> jget (body (fst (scan_url ex_env ex_io_save_fails ex_store (Some alice)
                         (Some ''http://x.test'')))) ''prediction'' = None"
  by (simp add: scan_url_def callFlaskPredict_unfold ex_defs truthy_def FLASK_URL_def
        js_or_def scan_failed_def)

text \<open>
  Claim C7, as the code has it.  A submission that carries a url while no predictor
  endpoint is configured is answered with status 503 and the error code
  \<^verbatim>\<open>FLASK_SERVICE_NOT_CONFIGURED\<close>; the database is unchanged, no request is sent to
  the predictor, and the response differs from every "Scan failed" response.  A
  submission without a url is answered 400 first.
\<close>

theorem scan_unconfigured_503:
  assumes "\<not> truthy (FLASK_URL e)"
  shows "(truthy body_url \<longrightarrow>
            scan_url e w s req_user body_url =
              (Json 503 (JObj [(''message'', JStr ''AI service is not configured.''),
                               (''error'', JStr ''FLASK_SERVICE_NOT_CONFIGURED'')]), s, [])
            \<and> (\<forall>error. fst (scan_url e w s req_user body_url) \<noteq> scan_failed error))
         \<and> (\<not> truthy body_url \<longrightarrow>
            scan_url e w s req_user body_url =
              (Json 400 (JObj [(''message'', JStr ''URL is required'')]), s, []))"
  using assms by (simp add: scan_url_def scan_failed_def)

theorem scan_unconfigured_503_witness:
  "scan_url ex_env_unconfigured ex_io ex_store (Some alice) (Some ''http://x.test'') =
     (Json 503 (JObj [(''message'', JStr ''AI service is not configured.''),
                      (''error'', JStr ''FLASK_SERVICE_NOT_CONFIGURED'')]), ex_store, [])
   \<and> scan_url ex_env_unconfigured ex_io ex_store (Some alice) None =
     (Json 400 (JObj [(''message'', JStr ''URL is required'')]), ex_store, [])"
  using scan_unconfigured_503 [of ex_env_unconfigured "Some ''http://x.test''" ex_io ex_store
      "Some alice"]
    scan_unconfigured_503 [of ex_env_unconfigured None ex_io ex_store "Some alice"]
  by (simp add: ex_defs truthy_def FLASK_URL_def js_or_def)

text \<open>
  Claim C7 as stated fails for a submission without a url: the url is checked first,
  and the answer is 400 although no predictor endpoint is configured.  With a url, the
  503 response carries the code \<^verbatim>\<open>FLASK_SERVICE_NOT_CONFIGURED\<close>.
\<close>

theorem scan_unconfigured_counterexample:
  "\<not> truthy (FLASK_URL ex_env_unconfigured)
   \<and> status (fst (scan_url ex_env_unconfigured ex_io ex_store (Some alice) None)) = 400
   \<and> jget (body (fst (scan_url ex_env_unconfigured ex_io ex_store (Some alice)
                         (Some ''http://x.test'')))) ''error''
       = Some (JStr ''FLASK_SERVICE_NOT_CONFIGURED'')"
  by (simp add: scan_url_def ex_defs truthy_def FLASK_URL_def js_or_def)



lemma scan_url_predict_returns:
  assumes "truthy body_url" and "truthy (FLASK_URL e)"
    and "fst (callFlaskPredict (axios_post w) (the (FLASK_URL e)) (the body_url)
                (case req_user of Some usr \<Rightarrow> oid_toString (uid usr) | None \<Rightarrow> ''anonymous''))
           = Inr (Some result)"
  shows "fst (scan_url e w s req_user body_url) =
           (case req_user of
              None \<Rightarrow> scan_ok w (the body_url) result
            | Some usr \<Rightarrow>
                (case save_error w of
                   Some error \<Rightarrow> scan_failed error
                 | None \<Rightarrow> scan_ok w (the body_url) result))"
    and "fst (snd (scan_url e w s req_user body_url)) =
           (case req_user of
              None \<Rightarrow> s
            | Some usr \<Rightarrow>
                (case save_error w of
                   Some error \<Rightarrow> s\<lparr>next_id := next_id s + 1\<rparr>
                 | None \<Rightarrow>
                     s\<lparr>next_id := next_id s + 1,
                       urlchecks := urlchecks s @
                         [\<lparr>cid = next_id s, url = the body_url,
                           prediction = res_prediction result,
                           confidence = res_confidence result, checkedAt = now w,
                           user = uid usr\<rparr>]\<rparr>))"
proof -
  obtain r evs where "callFlaskPredict (axios_post w) (the (FLASK_URL e)) (the body_url)
                  (case req_user of Some usr \<Rightarrow> oid_toString (uid usr) | None \<Rightarrow> ''anonymous'')
                = (r, evs)"
    by (cases "callFlaskPredict (axios_post w) (the (FLASK_URL e)) (the body_url)
                  (case req_user of Some usr \<Rightarrow> oid_toString (uid usr) | None \<Rightarrow> ''anonymous'')")
  with assms show
    "fst (scan_url e w s req_user body_url) =
           (case req_user of
              None \<Rightarrow> scan_ok w (the body_url) result
            | Some usr \<Rightarrow>
                (case save_error w of
                   Some error \<Rightarrow> scan_failed error
                 | None \<Rightarrow> scan_ok w (the body_url) result))"
    and "fst (snd (scan_url e w s req_user body_url)) =
           (case req_user of
              None \<Rightarrow> s
            | Some usr \<Rightarrow>
                (case save_error w of
                   Some error \<Rightarrow> s\<lparr>next_id := next_id s + 1\<rparr>
                 | None \<Rightarrow>
                     s\<lparr>next_id := next_id s + 1,
                       urlchecks := urlchecks s @
                         [\<lparr>cid = next_id s, url = the body_url,
                           prediction = res_prediction result,
                           confidence = res_confidence result, checkedAt = now w,
                           user = uid usr\<rparr>]\<rparr>))"
    by (simp_all add: scan_url_def Let_def split: option.splits)
qed




text \<open>
  Claim C2, as the code has it.  The scan route has no authentication guard.  A request
  without a session is validated, sent to the predictor with the caller id
  \<^verbatim>\<open>"anonymous"\<close> and answered like any other; the database and the session are
  left as they were, so no record is stored for it.  The requests sent to the predictor
  are those of \<open>callFlaskPredict\<close> for that caller id.
\<close>

theorem scan_unauthenticated_is_processed:
  "handle e w (s, None) (POST_scan_url body_url) =
     (if \<not> truthy body_url then Json 400 (JObj [(''message'', JStr ''URL is required'')])
      else if \<not> truthy (FLASK_URL e) then
        Json 503 (JObj [(''message'', JStr ''AI service is not configured.''),
                        (''error'', JStr ''FLASK_SERVICE_NOT_CONFIGURED'')])
      else case fst (callFlaskPredict (axios_post w) (the (FLASK_URL e)) (the body_url)
                       ''anonymous'') of
             Inl error \<Rightarrow> scan_failed error
           | Inr None \<Rightarrow> scan_failed undefined_data_error
           | Inr (Some result) \<Rightarrow> scan_ok w (the body_url) result,
      s, None)
   \<and> snd (snd (scan_url e w s None body_url)) =
       (if truthy body_url \<and> truthy (FLASK_URL e)
        then snd (callFlaskPredict (axios_post w) (the (FLASK_URL e)) (the body_url)
                    ''anonymous'')
        else [])"
proof (cases "callFlaskPredict (axios_post w) (the (FLASK_URL e)) (the body_url) ''anonymous''")
  case (Pair r evs)
  then show ?thesis
    by (simp add: handle_def scan_url_def Let_def split: sum.splits option.splits)
qed

text \<open>
  Claim C2 as stated fails: an unauthenticated submission is answered with status 200
  and the prediction.
\<close>

theorem scan_unauthenticated_counterexample:
  "handle ex_env ex_io (ex_store, None) (POST_scan_url (Some ''http://x.test'')) =
     (Json 200 (JObj
        [(''url'', JStr ''http://x.test''),
         (''prediction'', JStr ''phishing''),
         (''confidence'', JNum 97),
         (''timestamp'', JDate 1000),
         (''message'', JStr ''Potential phishing site detected!'')]),
      ex_store, None)"
  by (simp add: handle_def scan_url_def callFlaskPredict_unfold scan_ok_def ex_defs truthy_def
        FLASK_URL_def js_or_def Let_def)

section \<open>Properties of signup and login\<close>

lemma find_append:
  "find P (xs @ ys) = (case find P xs of Some x \<Rightarrow> Some x | None \<Rightarrow> find P ys)"
  by (induction xs) auto

lemma find_Some_in: "find P xs = Some x \<Longrightarrow> x \<in> set xs \<and> P x"
  by (induction xs) (auto split: if_splits)

lemma find_None_all: "find P xs = None \<longleftrightarrow> (\<forall>x\<in>set xs. \<not> P x)"
  by (induction xs) auto

lemma signup_conflict:
  assumes "find_error w = None" and "find (\<lambda>usr. email usr = em) (users s) = Some existing"
  shows "signup w s em pw nm = (Json 409 (JObj [(''message'', JStr ''Email already exists'')]), s)"
  using assms by (simp add: signup_def)

lemma signup_creates:
  assumes "find_error w = None" and "save_error w = None"
    and "find (\<lambda>usr. email usr = em) (users s) = None"
  shows "signup w s em (Some p) nm =
           (Json 201 (JObj [(''message'', JStr ''Signup success'')]),
            s\<lparr>next_id := next_id s + 1,
              users := users s @ [\<lparr>uid = next_id s, email = em,
                                   password = Some (bcrypt_hash w p), googleId = None,
                                   name = nm\<rparr>]\<rparr>)"
  using assms by (simp add: signup_def Let_def)

text \<open>
  Claim C9.  A signup with a password and an email that no user has, with the database
  working, answers 201 and appends one user whose password field is the bcrypt hash;
  a second signup with the same email, whatever its password and name, answers 409 and
  leaves the database, hence the first record, as it was.  Signup leaves the client's
  session as it was, or cleared when its user no longer exists.
\<close>

theorem signup_then_conflict:
  assumes "find_error w = None" and "save_error w = None" and "find_error w2 = None"
    and "\<forall>usr\<in>set (users s). email usr \<noteq> em"
  shows "(case signup w s em (Some p) nm of (r1, s1) \<Rightarrow>
            r1 = Json 201 (JObj [(''message'', JStr ''Signup success'')])
            \<and> s1 = s\<lparr>next_id := next_id s + 1,
                      users := users s @ [\<lparr>uid = next_id s, email = em,
                                           password = Some (bcrypt_hash w p), googleId = None,
                                           name = nm\<rparr>]\<rparr>
            \<and> signup w2 s1 em pw2 nm2 =
                (Json 409 (JObj [(''message'', JStr ''Email already exists'')]), s1))
         \<and> (snd (snd (handle e w (s, sess) (POST_signup em (Some p) nm))) = sess
            \<or> snd (snd (handle e w (s, sess) (POST_signup em (Some p) nm))) = None)"
proof -
  from assms(4) have none: "find (\<lambda>usr. email usr = em) (users s) = None"
    by (simp add: find_None_all)
  let ?new = "\<lparr>uid = next_id s, email = em, password = Some (bcrypt_hash w p),
               googleId = None, name = nm\<rparr>"
  let ?s1 = "s\<lparr>next_id := next_id s + 1, users := users s @ [?new]\<rparr>"
  have first: "signup w s em (Some p) nm =
                 (Json 201 (JObj [(''message'', JStr ''Signup success'')]), ?s1)"
    by (rule signup_creates [OF assms(1,2) none])
  have "find (\<lambda>usr. email usr = em) (users ?s1) = Some ?new"
    using none by (simp add: find_append)
  from signup_conflict [OF assms(3) this]
  have second: "signup w2 ?s1 em pw2 nm2 =
                 (Json 409 (JObj [(''message'', JStr ''Email already exists'')]), ?s1)" .
  have sess: "snd (snd (handle e w (s, sess) (POST_signup em (Some p) nm))) = sess
              \<or> snd (snd (handle e w (s, sess) (POST_signup em (Some p) nm))) = None"
    by (simp add: handle_def split: option.splits sum.splits prod.splits)
  from first second sess show ?thesis by simp
qed

theorem signup_then_conflict_witness:
  "signup ex_io ex_store (Some ''carol@example.com'') (Some ''pw1'') (Some ''Carol'') =
     (Json 201 (JObj [(''message'', JStr ''Signup success'')]),
      \<lparr>users = [alice, \<lparr>uid = 2, email = Some ''carol@example.com'',
                         password = Some ''$2a$10$pw1'', googleId = None,
                         name = Some ''Carol''\<rparr>],
       urlchecks = [], next_id = 3\<rparr>)
   \<and> signup ex_io
        \<lparr>users = [alice, \<lparr>uid = 2, email = Some ''carol@example.com'',
                           password = Some ''$2a$10$pw1'', googleId = None,
                           name = Some ''Carol''\<rparr>],
         urlchecks = [], next_id = 3\<rparr>
        (Some ''carol@example.com'') (Some ''other'') None =
     (Json 409 (JObj [(''message'', JStr ''Email already exists'')]),
      \<lparr>users = [alice, \<lparr>uid = 2, email = Some ''carol@example.com'',
                         password = Some ''$2a$10$pw1'', googleId = None,
                         name = Some ''Carol''\<rparr>],
       urlchecks = [], next_id = 3\<rparr>)"
  using signup_then_conflict [where w = ex_io and ?w2.0 = ex_io and s = ex_store
      and em = "Some ''carol@example.com''" and p = "''pw1''" and nm = "Some ''Carol''"
      and ?pw2.0 = "Some ''other''" and ?nm2.0 = None and e = ex_env and sess = None]
  by (simp add: ex_defs split: prod.splits)


lemma username_of_email:
  "email usr = Some em \<Longrightarrow>
   username usr = Inr (if truthy (name usr) then the (name usr)
                       else takeWhile (\<lambda>c. c \<noteq> CHR ''@'') em)"
  by (simp add: username_def)

lemma credential_body:
  "js_truthy v \<Longrightarrow> js_typeof v \<noteq> ''object'' \<Longrightarrow> credential (Some v) q = Some v"
  by (simp add: credential_def lookup_def)

text \<open>
  Claim C4, as the code has it.  With the database working and a non-empty string as
  email: for a non-empty string as password, the login route answers 200 and binds the
  session to the user exactly when the email is registered, the account stores a
  password hash and \<^verbatim>\<open>bcrypt.compare\<close> accepts the password; an unknown email, an
  account without a password hash and a wrong password all give the same response, 401
  with the body "Unauthorized", and leave the session as it was (the three messages
  that \<open>local_verify\<close> hands to \<^verbatim>\<open>done\<close> stay inside the server).  For a password
  that is a non-zero number or \<^verbatim>\<open>true\<close>, an account with a password hash gives 500,
  because \<^verbatim>\<open>bcrypt.compare\<close> rejects the value, while an unknown email and an account
  without a hash give 401.  A request whose email or password is missing or falsy is
  answered 400 before any lookup.
\<close>

theorem login_local_outcomes:
  assumes "find_error w = None" and "em \<noteq> []"
  shows
    "(pw \<noteq> [] \<longrightarrow>
        post_api_login e w s sess (Some (JStr em)) (Some (JStr pw)) qe qp =
          (case find (\<lambda>usr. email usr = Some em) (users s) of
             None \<Rightarrow> (Text 401 ''Unauthorized'', sess)
           | Some usr \<Rightarrow>
               if truthy (password usr) \<and> bcrypt_compare w pw (the (password usr))
               then (Json 200 (JObj
                       [(''message'', JStr ''Login success''),
                        (''username'',
                         JStr (if truthy (name usr) then the (name usr)
                               else takeWhile (\<lambda>c. c \<noteq> CHR ''@'') em))]),
                     Some (uid usr))
               else (Text 401 ''Unauthorized'', sess)))
     \<and> (js_truthy v \<and> (js_typeof v = ''number'' \<or> js_typeof v = ''boolean'') \<longrightarrow>
        post_api_login e w s sess (Some (JStr em)) (Some v) qe qp =
          (case find (\<lambda>usr. email usr = Some em) (users s) of
             None \<Rightarrow> (Text 401 ''Unauthorized'', sess)
           | Some usr \<Rightarrow>
               if truthy (password usr)
               then (error_handler e
                       \<lparr>err_message = ''Illegal arguments: '' @ js_typeof v @ '', string'',
                        err_code = None, err_response_data = None\<rparr>, sess)
               else (Text 401 ''Unauthorized'', sess)))
     \<and> (missing (credential be qe) \<or> missing (credential bp qp) \<longrightarrow>
        post_api_login e w s sess be bp qe qp = (Text 400 ''Bad Request'', sess))"
proof (intro conjI impI)
  assume pw: "pw \<noteq> []"
  have c: "credential (Some (JStr em)) qe = Some (JStr em)"
    "credential (Some (JStr pw)) qp = Some (JStr pw)"
    using assms(2) pw by (simp_all add: credential_body)
  show "post_api_login e w s sess (Some (JStr em)) (Some (JStr pw)) qe qp =
          (case find (\<lambda>usr. email usr = Some em) (users s) of
             None \<Rightarrow> (Text 401 ''Unauthorized'', sess)
           | Some usr \<Rightarrow>
               if truthy (password usr) \<and> bcrypt_compare w pw (the (password usr))
               then (Json 200 (JObj
                       [(''message'', JStr ''Login success''),
                        (''username'',
                         JStr (if truthy (name usr) then the (name usr)
                               else takeWhile (\<lambda>c. c \<noteq> CHR ''@'') em))]),
                     Some (uid usr))
               else (Text 401 ''Unauthorized'', sess))"
  proof (cases "find (\<lambda>usr. email usr = Some em) (users s)")
    case None
    with assms pw c show ?thesis
      by (simp add: post_api_login_def local_verify_def missing_def)
  next
    case (Some usr)
    then have "email usr = Some em" by (auto dest: find_Some_in)
    then have "username usr = Inr (if truthy (name usr) then the (name usr)
                                   else takeWhile (\<lambda>c. c \<noteq> CHR ''@'') em)"
      by (rule username_of_email)
    with Some assms pw c show ?thesis
      by (simp add: post_api_login_def local_verify_def missing_def compare_def)
  qed
next
  assume v: "js_truthy v \<and> (js_typeof v = ''number'' \<or> js_typeof v = ''boolean'')"
  then have nostr: "js_typeof v \<noteq> ''string''" by auto
  have c: "credential (Some (JStr em)) qe = Some (JStr em)" "credential (Some v) qp = Some v"
    using assms(2) v by (auto simp: credential_body)
  have cmp: "compare w v h =
               Inl \<lparr>err_message = ''Illegal arguments: '' @ js_typeof v @ '', string'',
                    err_code = None, err_response_data = None\<rparr>" for h
    using nostr by (cases v) (simp_all add: compare_def)
  show "post_api_login e w s sess (Some (JStr em)) (Some v) qe qp =
          (case find (\<lambda>usr. email usr = Some em) (users s) of
             None \<Rightarrow> (Text 401 ''Unauthorized'', sess)
           | Some usr \<Rightarrow>
               if truthy (password usr)
               then (error_handler e
                       \<lparr>err_message = ''Illegal arguments: '' @ js_typeof v @ '', string'',
                        err_code = None, err_response_data = None\<rparr>, sess)
               else (Text 401 ''Unauthorized'', sess))"
    using assms v c
    by (simp add: post_api_login_def local_verify_def missing_def cmp split: option.splits)
next
  assume "missing (credential be qe) \<or> missing (credential bp qp)"
  then show "post_api_login e w s sess be bp qe qp = (Text 400 ''Bad Request'', sess)"
    by (simp add: post_api_login_def Let_def)
qed

theorem login_local_outcomes_witness:
  "post_api_login ex_env ex_io ex_store2 None
     (Some (JStr ''alice@example.com'')) (Some (JStr ''secret'')) None None =
     (Json 200 (JObj [(''message'', JStr ''Login success''), (''username'', JStr ''Alice'')]),
      Some 1)
   \<and> post_api_login ex_env ex_io ex_store2 None
       (Some (JStr ''alice@example.com'')) (Some (JStr ''wrong'')) None None =
       (Text 401 ''Unauthorized'', None)
   \<and> post_api_login ex_env ex_io ex_store2 None
       (Some (JStr ''nobody@example.com'')) (Some (JStr ''secret'')) None None =
       (Text 401 ''Unauthorized'', None)
   \<and> post_api_login ex_env ex_io ex_store2 None
       (Some (JStr ''bob@example.com'')) (Some (JStr ''secret'')) None None =
       (Text 401 ''Unauthorized'', None)
   \<and> post_api_login ex_env ex_io ex_store2 None
       (Some (JStr ''alice@example.com'')) (Some (JNum 1)) None None =
       (Json 500 (JObj [(''message'', JStr ''Internal server error''),
                        (''error'', JStr ''Something went wrong'')]), None)
   \<and> post_api_login ex_env ex_io ex_store2 None
       (Some (JStr ''alice@example.com'')) (Some (JStr [])) None None =
       (Text 400 ''Bad Request'', None)"
  using
    login_local_outcomes [where w = ex_io and em = "''alice@example.com''" and pw = "''secret''"
      and e = ex_env and s = ex_store2 and sess = None and qe = None and qp = None
      and v = "JNum 1" and be = "Some (JStr ''alice@example.com'')" and bp = "Some (JStr [])"]
    login_local_outcomes [where w = ex_io and em = "''alice@example.com''" and pw = "''wrong''"
      and e = ex_env and s = ex_store2 and sess = None and qe = None and qp = None
      and v = "JNum 1" and be = None and bp = None]
    login_local_outcomes [where w = ex_io and em = "''nobody@example.com''" and pw = "''secret''"
      and e = ex_env and s = ex_store2 and sess = None and qe = None and qp = None
      and v = "JNum 1" and be = None and bp = None]
    login_local_outcomes [where w = ex_io and em = "''bob@example.com''" and pw = "''secret''"
      and e = ex_env and s = ex_store2 and sess = None and qe = None and qp = None
      and v = "JNum 1" and be = None and bp = None]
  by (simp add: ex_defs truthy_def error_handler_def missing_def credential_def lookup_def)

text \<open>
  Claim C4 as stated fails twice.  With the password 1 in the JSON body, the account
  that has a password hash answers 500 where the unknown email and the Google-only
  account answer 401, so the failures can be told apart.  And the account signed up
  with the empty password is answered 400 when it logs in with that password, although
  \<^verbatim>\<open>bcrypt.compare\<close> would accept it.
\<close>

theorem login_local_counterexample:
  "status (fst (post_api_login ex_env ex_io ex_store2 None
             (Some (JStr ''alice@example.com'')) (Some (JNum 1)) None None)) = 500
   \<and> status (fst (post_api_login ex_env ex_io ex_store2 None
             (Some (JStr ''nobody@example.com'')) (Some (JNum 1)) None None)) = 401
   \<and> status (fst (post_api_login ex_env ex_io ex_store2 None
             (Some (JStr ''bob@example.com'')) (Some (JNum 1)) None None)) = 401
   \<and> fst (signup ex_io ex_store (Some ''carol@example.com'') (Some []) None) =
       Json 201 (JObj [(''message'', JStr ''Signup success'')])
   \<and> bcrypt_compare ex_io []
       (the (password (last (users (snd (signup ex_io ex_store (Some ''carol@example.com'')
                                          (Some []) None))))))
   \<and> post_api_login ex_env ex_io
       (snd (signup ex_io ex_store (Some ''carol@example.com'') (Some []) None)) None
       (Some (JStr ''carol@example.com'')) (Some (JStr [])) None None =
       (Text 400 ''Bad Request'', None)"
  by (simp add: post_api_login_def local_verify_def compare_def credential_def lookup_def
        missing_def error_handler_def signup_def truthy_def Let_def ex_defs)

lemma google_verify_found:
  assumes "find_error w = None"
    and "find (\<lambda>usr. googleId usr = Some (profile_id pr)) (users s) = Some usr"
  shows "google_verify w s pr = (Done_ok usr, s)"
  using assms by (simp add: google_verify_def)

lemma google_verify_links:
  assumes "find_error w = None" and "save_error w = None"
    and "find (\<lambda>usr. googleId usr = Some (profile_id pr)) (users s) = None"
    and "truthy (profile_email pr)"
    and "find (\<lambda>usr. email usr = profile_email pr) (users s) = Some existing"
  shows "google_verify w s pr =
           (Done_ok (existing\<lparr>googleId := Some (profile_id pr)\<rparr>),
            s\<lparr>users := map (\<lambda>v. if uid v = uid existing
                                 then v\<lparr>googleId := Some (profile_id pr)\<rparr> else v)
                           (users s)\<rparr>)"
  using assms by (simp add: google_verify_def Let_def)

lemma google_verify_creates:
  assumes "find_error w = None" and "save_error w = None"
    and "find (\<lambda>usr. googleId usr = Some (profile_id pr)) (users s) = None"
    and "\<not> truthy (profile_email pr)
         \<or> find (\<lambda>usr. email usr = profile_email pr) (users s) = None"
  shows "google_verify w s pr =
           (Done_ok \<lparr>uid = next_id s, email = profile_email pr, password = None,
                     googleId = Some (profile_id pr), name = profile_displayName pr\<rparr>,
            s\<lparr>next_id := next_id s + 1,
              users := users s @
                [\<lparr>uid = next_id s, email = profile_email pr, password = None,
                  googleId = Some (profile_id pr), name = profile_displayName pr\<rparr>]\<rparr>)"
  using assms by (auto simp: google_verify_def Let_def)

lemma find_googleId_after_link:
  assumes "find (\<lambda>usr. googleId usr = Some g) xs = None" and "existing \<in> set xs"
  shows "\<exists>v. find (\<lambda>usr. googleId usr = Some g)
               (map (\<lambda>v. if uid v = uid existing then v\<lparr>googleId := Some g\<rparr> else v) xs)
             = Some v \<and> uid v = uid existing"
  using assms by (induction xs) auto

text \<open>
  Claim C5.  With the database working, a Google login succeeds, and a second login
  with the same Google id (whatever email and display name the profile then carries)
  returns a user with the same id and leaves the database as the first login left it.
\<close>

theorem login_external_idempotent:
  assumes "find_error w = None" and "save_error w = None" and "find_error w2 = None"
    and "profile_id pr2 = profile_id pr"
  shows "\<exists>usr s1 usr2.
           google_verify w s pr = (Done_ok usr, s1)
           \<and> google_verify w2 s1 pr2 = (Done_ok usr2, s1)
           \<and> uid usr2 = uid usr"
proof -
  let ?byId = "\<lambda>usr. googleId usr = Some (profile_id pr)"
  have again: "google_verify w2 t pr2 = (Done_ok v, t)" if "find ?byId (users t) = Some v" for t v
    using that assms(3,4) google_verify_found [of w2 pr2 t v] by simp
  show ?thesis
  proof (cases "find ?byId (users s)")
    case (Some usr)
    from google_verify_found [OF assms(1) Some] again [OF Some]
    show ?thesis by blast
  next
    case None
    show ?thesis
    proof (cases "truthy (profile_email pr)
                  \<and> find (\<lambda>usr. email usr = profile_email pr) (users s) \<noteq> None")
      case True
      then obtain existing where
        ex: "find (\<lambda>usr. email usr = profile_email pr) (users s) = Some existing"
        by auto
      let ?s1 = "s\<lparr>users := map (\<lambda>v. if uid v = uid existing
                                     then v\<lparr>googleId := Some (profile_id pr)\<rparr> else v)
                               (users s)\<rparr>"
      from True ex have first: "google_verify w s pr =
          (Done_ok (existing\<lparr>googleId := Some (profile_id pr)\<rparr>), ?s1)"
        using google_verify_links [OF assms(1,2) None] by simp
      from ex have "existing \<in> set (users s)" by (auto dest: find_Some_in)
      from find_googleId_after_link [OF None this]
      obtain v where v: "find ?byId (users ?s1) = Some v" "uid v = uid existing"
        by auto
      from again [OF v(1)] first v(2) show ?thesis by auto
    next
      case False
      let ?new = "\<lparr>uid = next_id s, email = profile_email pr, password = None,
                   googleId = Some (profile_id pr), name = profile_displayName pr\<rparr>"
      let ?s1 = "s\<lparr>next_id := next_id s + 1, users := users s @ [?new]\<rparr>"
      from False have first: "google_verify w s pr = (Done_ok ?new, ?s1)"
        using google_verify_creates [OF assms(1,2) None] by auto
      have "find ?byId (users ?s1) = Some ?new"
        using None by (simp add: find_append)
      from again [OF this] first show ?thesis by auto
    qed
  qed
qed

theorem login_external_idempotent_witness:
  "google_verify ex_io ex_store2 ex_profile_carol =
     (Done_ok \<lparr>uid = 3, email = Some ''carol@example.com'', password = None,
               googleId = Some ''g-300'', name = Some ''Carol''\<rparr>,
      ex_store2\<lparr>next_id := 4,
        users := [alice, bob,
                  \<lparr>uid = 3, email = Some ''carol@example.com'', password = None,
                    googleId = Some ''g-300'', name = Some ''Carol''\<rparr>]\<rparr>)
   \<and> (\<exists>usr2. google_verify ex_io
                (ex_store2\<lparr>next_id := 4,
                   users := [alice, bob,
                             \<lparr>uid = 3, email = Some ''carol@example.com'', password = None,
                               googleId = Some ''g-300'', name = Some ''Carol''\<rparr>]\<rparr>)
                ex_profile_carol =
              (Done_ok usr2,
               ex_store2\<lparr>next_id := 4,
                 users := [alice, bob,
                           \<lparr>uid = 3, email = Some ''carol@example.com'', password = None,
                             googleId = Some ''g-300'', name = Some ''Carol''\<rparr>]\<rparr>)
              \<and> uid usr2 = 3)"
proof -
  have first: "google_verify ex_io ex_store2 ex_profile_carol =
     (Done_ok \<lparr>uid = 3, email = Some ''carol@example.com'', password = None,
               googleId = Some ''g-300'', name = Some ''Carol''\<rparr>,
      ex_store2\<lparr>next_id := 4,
        users := [alice, bob,
                  \<lparr>uid = 3, email = Some ''carol@example.com'', password = None,
                    googleId = Some ''g-300'', name = Some ''Carol''\<rparr>]\<rparr>)"
    by (simp add: google_verify_def ex_defs truthy_def Let_def)
  from login_external_idempotent [of ex_io ex_io ex_profile_carol ex_profile_carol ex_store2]
  obtain usr s1 usr2 where
    "google_verify ex_io ex_store2 ex_profile_carol = (Done_ok usr, s1)"
    "google_verify ex_io s1 ex_profile_carol = (Done_ok usr2, s1)"
    "uid usr2 = uid usr"
    by (auto simp: ex_defs)
  with first show ?thesis by auto
qed


section \<open>The authentication-path invariant\<close>

lemma signup_auth_path:
  assumes "\<forall>usr\<in>set (users s). auth_path usr"
  shows "\<forall>usr\<in>set (users (snd (signup w s a b c))). auth_path usr"
  using assms
  by (auto simp: signup_def Let_def auth_path_def split: option.splits)

lemma google_verify_auth_path:
  assumes "\<forall>usr\<in>set (users s). auth_path usr"
  shows "\<forall>usr\<in>set (users (snd (google_verify w s pr))). auth_path usr"
  using assms
  by (auto simp: google_verify_def Let_def auth_path_def split: option.splits if_splits)

lemma scan_url_users: "users (fst (snd (scan_url e w s req_user body_url))) = users s"
proof (cases "callFlaskPredict (axios_post w) (the (FLASK_URL e)) (the body_url)
                (case req_user of Some usr \<Rightarrow> oid_toString (uid usr) | None \<Rightarrow> ''anonymous'')")
  case (Pair r evs)
  then show ?thesis
    by (simp add: scan_url_def Let_def split: sum.splits option.splits)
qed

lemma route_auth_path:
  assumes "\<forall>usr\<in>set (users s). auth_path usr"
  shows "\<forall>usr\<in>set (users (fst (snd (route e w s sess req_user req)))). auth_path usr"
proof (cases req)
  case (POST_signup a b c)
  with signup_auth_path [OF assms, of w a b c] show ?thesis
    by (simp split: prod.splits)
next
  case (GET_google_callback pr)
  with google_verify_auth_path [OF assms, of w pr] show ?thesis
    by (simp add: google_callback_def split: prod.splits verify_result.splits)
next
  case (POST_scan_url body_url)
  with assms scan_url_users [of e w s req_user body_url] show ?thesis
    by (auto split: prod.splits)
qed (use assms in \<open>simp_all split: prod.splits\<close>)

lemma handle_auth_path:
  assumes "\<forall>usr\<in>set (users (fst st)). auth_path usr"
  shows "\<forall>usr\<in>set (users (fst (snd (handle e w st req)))). auth_path usr"
proof (cases st)
  case (Pair s sess)
  with assms have inv: "\<forall>usr\<in>set (users s). auth_path usr" by simp
  show ?thesis
  proof (cases "case sess of None \<Rightarrow> Inr None | Some i \<Rightarrow> deserializeUser w s i")
    case (Inl err)
    with Pair inv show ?thesis by (simp add: handle_def)
  next
    case (Inr req_user)
    with Pair route_auth_path [OF inv, of e w "if req_user = None then None else sess" req_user req]
    show ?thesis by (simp add: handle_def)
  qed
qed

text \<open>
  Claim C10.  When every stored user has an authentication path, so has every user
  stored after any run of requests, whatever the outside world does meanwhile.  The
  empty database satisfies the premise, so every user that signup or a Google login
  ever creates has a password hash or a Google id, and no later request takes the last
  one away.
\<close>

theorem auth_path_invariant:
  assumes "\<forall>usr\<in>set (users (fst st)). auth_path usr"
  shows "\<forall>usr\<in>set (users (fst (run e steps st))). auth_path usr"
  using assms
proof (induction steps arbitrary: st)
  case Nil
  then show ?case by simp
next
  case (Cons step steps)
  obtain w req where step: "step = (w, req)" by (cases step)
  from handle_auth_path [OF Cons.prems, of e w req]
  have "\<forall>usr\<in>set (users (fst (snd (handle e w st req)))). auth_path usr" .
  from Cons.IH [OF this] step show ?case by simp
qed

theorem auth_path_invariant_witness:
  "map auth_path
     (users (fst (run ex_env
        [(ex_io, POST_signup (Some ''dave@example.com'') (Some ''pw'') None),
         (ex_io, GET_google_callback ex_profile_carol),
         (ex_io, GET_google_callback
                   \<lparr>profile_id = ''g-77'', profile_displayName = None,
                    profile_email = Some ''dave@example.com''\<rparr>)]
        (empty_store, None)))) = [True, True]"
proof -
  have run: "users (fst (run ex_env
        [(ex_io, POST_signup (Some ''dave@example.com'') (Some ''pw'') None),
         (ex_io, GET_google_callback ex_profile_carol),
         (ex_io, GET_google_callback
                   \<lparr>profile_id = ''g-77'', profile_displayName = None,
                    profile_email = Some ''dave@example.com''\<rparr>)]
        (empty_store, None))) =
     [\<lparr>uid = 0, email = Some ''dave@example.com'', password = Some ''$2a$10$pw'',
       googleId = Some ''g-77'', name = None\<rparr>,
      \<lparr>uid = 1, email = Some ''carol@example.com'', password = None,
       googleId = Some ''g-300'', name = Some ''Carol''\<rparr>]"
    by (simp add: handle_def signup_def google_callback_def google_verify_def deserializeUser_def
          empty_store_def ex_defs truthy_def Let_def)
  from auth_path_invariant [of "(empty_store, None)" ex_env
        "[(ex_io, POST_signup (Some ''dave@example.com'') (Some ''pw'') None),
         (ex_io, GET_google_callback ex_profile_carol),
         (ex_io, GET_google_callback
                   \<lparr>profile_id = ''g-77'', profile_displayName = None,
                    profile_email = Some ''dave@example.com''\<rparr>)]"]
  show ?thesis
    unfolding run by (simp add: empty_store_def)
qed


section \<open>Well-formed databases and account linking\<close>

lemma store_wfD:
  assumes "store_wf s"
  shows "distinct (map uid (users s))"
    and "\<And>u. u \<in> set (users s) \<Longrightarrow> uid u < next_id s"
    and "\<And>u v. u \<in> set (users s) \<Longrightarrow> v \<in> set (users s) \<Longrightarrow> truthy (email u)
           \<Longrightarrow> email v = email u \<Longrightarrow> uid v = uid u"
  using assms unfolding store_wf_def by blast+

lemma store_wfI:
  assumes "distinct (map uid (users s))"
    and "\<And>u. u \<in> set (users s) \<Longrightarrow> uid u < next_id s"
    and "\<And>u v. u \<in> set (users s) \<Longrightarrow> v \<in> set (users s) \<Longrightarrow> truthy (email u)
           \<Longrightarrow> email v = email u \<Longrightarrow> uid v = uid u"
  shows "store_wf s"
  using assms unfolding store_wf_def by blast

lemma store_wf_same_user:
  assumes "store_wf s" and "u \<in> set (users s)" and "v \<in> set (users s)" and "uid v = uid u"
  shows "v = u"
proof -
  from store_wfD(1) [OF assms(1)] have "inj_on uid (set (users s))"
    by (simp add: distinct_map)
  with assms(2-4) show ?thesis by (auto dest: inj_onD)
qed

lemma store_wf_bump:
  assumes "store_wf s"
  shows "store_wf (s\<lparr>next_id := next_id s + 1\<rparr>)"
proof (rule store_wfI)
  show "distinct (map uid (users (s\<lparr>next_id := next_id s + 1\<rparr>)))"
    using store_wfD(1) [OF assms] by simp
next
  fix u assume "u \<in> set (users (s\<lparr>next_id := next_id s + 1\<rparr>))"
  then have "uid u < next_id s" using store_wfD(2) [OF assms] by simp
  then show "uid u < next_id (s\<lparr>next_id := next_id s + 1\<rparr>)" by simp
next
  fix u v
  assume "u \<in> set (users (s\<lparr>next_id := next_id s + 1\<rparr>))"
    and "v \<in> set (users (s\<lparr>next_id := next_id s + 1\<rparr>))"
    and "truthy (email u)" and "email v = email u"
  then show "uid v = uid u" using store_wfD(3) [OF assms, of u v] by simp
qed

lemma store_wf_append:
  assumes "store_wf s" and "uid new = next_id s"
    and "truthy (email new) \<Longrightarrow> \<forall>u\<in>set (users s). email u \<noteq> email new"
  shows "store_wf (s\<lparr>next_id := next_id s + 1, users := users s @ [new]\<rparr>)"
proof (rule store_wfI)
  have "uid new \<notin> uid ` set (users s)"
    using store_wfD(2) [OF assms(1)] assms(2) by force
  then show "distinct (map uid (users (s\<lparr>next_id := next_id s + 1, users := users s @ [new]\<rparr>)))"
    using store_wfD(1) [OF assms(1)] by simp
next
  fix u assume "u \<in> set (users (s\<lparr>next_id := next_id s + 1, users := users s @ [new]\<rparr>))"
  then have "u \<in> set (users s) \<or> u = new" by auto
  then have "uid u \<le> next_id s"
    using store_wfD(2) [OF assms(1), of u] assms(2) by auto
  then show "uid u < next_id (s\<lparr>next_id := next_id s + 1, users := users s @ [new]\<rparr>)"
    by simp
next
  fix u v
  assume "u \<in> set (users (s\<lparr>next_id := next_id s + 1, users := users s @ [new]\<rparr>))"
    and "v \<in> set (users (s\<lparr>next_id := next_id s + 1, users := users s @ [new]\<rparr>))"
    and t: "truthy (email u)" and e: "email v = email u"
  then have u: "u \<in> set (users s) \<or> u = new" and v: "v \<in> set (users s) \<or> v = new"
    by auto
  show "uid v = uid u"
  proof (cases "u = new")
    case True
    show ?thesis
    proof (cases "v = new")
      case True
      with \<open>u = new\<close> show ?thesis by simp
    next
      case False
      with v have "v \<in> set (users s)" by simp
      with assms(3) t e \<open>u = new\<close> show ?thesis by auto
    qed
  next
    case False
    with u have u': "u \<in> set (users s)" by simp
    show ?thesis
    proof (cases "v = new")
      case True
      with assms(3) t e u' show ?thesis by auto
    next
      case False
      with v have "v \<in> set (users s)" by simp
      from store_wfD(3) [OF assms(1) u' this t e] show ?thesis .
    qed
  qed
qed

lemma map_uid_link:
  "map uid (map (\<lambda>v. if uid v = i then v\<lparr>googleId := g\<rparr> else v) xs) = map uid xs"
  by (induction xs) auto

lemma store_wf_link:
  assumes "store_wf s"
  shows "store_wf (s\<lparr>users := map (\<lambda>v. if uid v = i then v\<lparr>googleId := g\<rparr> else v) (users s)\<rparr>)"
proof (rule store_wfI)
  let ?f = "\<lambda>v. if uid v = i then v\<lparr>googleId := g\<rparr> else v"
  let ?s1 = "s\<lparr>users := map ?f (users s)\<rparr>"
  have orig: "\<exists>u0\<in>set (users s). uid u = uid u0 \<and> email u = email u0"
    if "u \<in> set (users ?s1)" for u
    using that by auto
  show "distinct (map uid (users ?s1))"
    using store_wfD(1) [OF assms] by (simp add: map_uid_link del: map_map)
  show "uid u < next_id ?s1" if "u \<in> set (users ?s1)" for u
  proof -
    from orig [OF that] obtain u0 where "u0 \<in> set (users s)" "uid u = uid u0" by blast
    with store_wfD(2) [OF assms, of u0] show ?thesis by simp
  qed
  show "uid v = uid u"
    if u: "u \<in> set (users ?s1)" and v: "v \<in> set (users ?s1)"
      and t: "truthy (email u)" and e: "email v = email u" for u v
  proof -
    from orig [OF u] obtain u0 where u0: "u0 \<in> set (users s)" "uid u = uid u0" "email u = email u0"
      by blast
    from orig [OF v] obtain v0 where v0: "v0 \<in> set (users s)" "uid v = uid v0" "email v = email v0"
      by blast
    from t e u0(3) v0(3) have "truthy (email u0)" and "email v0 = email u0" by simp_all
    from store_wfD(3) [OF assms u0(1) v0(1) this] u0(2) v0(2) show ?thesis by simp
  qed
qed

lemma signup_wf:
  assumes "store_wf s"
  shows "store_wf (snd (signup w s a b c))"
proof (cases "find_error w = None \<and> find (\<lambda>usr. email usr = a) (users s) = None
              \<and> b \<noteq> None")
  case False
  with assms show ?thesis
    by (auto simp: signup_def split: option.splits)
next
  case True
  then obtain p where b: "b = Some p" by auto
  from True have fresh: "\<forall>u\<in>set (users s). email u \<noteq> a" by (simp add: find_None_all)
  let ?new = "\<lparr>uid = next_id s, email = a, password = Some (bcrypt_hash w p),
               googleId = None, name = c\<rparr>"
  show ?thesis
  proof (cases "save_error w")
    case None
    with True b have "snd (signup w s a b c) =
        s\<lparr>next_id := next_id s + 1, users := users s @ [?new]\<rparr>"
      by (simp add: signup_def Let_def)
    moreover have "store_wf (s\<lparr>next_id := next_id s + 1, users := users s @ [?new]\<rparr>)"
      using fresh by (intro store_wf_append [OF assms]) simp_all
    ultimately show ?thesis by simp
  next
    case (Some err)
    with True b have "snd (signup w s a b c) = s\<lparr>next_id := next_id s + 1\<rparr>"
      by (simp add: signup_def Let_def)
    with store_wf_bump [OF assms] show ?thesis by simp
  qed
qed

lemma google_verify_wf:
  assumes "store_wf s"
  shows "store_wf (snd (google_verify w s pr))"
proof (cases "find_error w")
  case (Some err)
  with assms show ?thesis by (simp add: google_verify_def)
next
  case noerr: None
  show ?thesis
  proof (cases "find (\<lambda>usr. googleId usr = Some (profile_id pr)) (users s)")
    case (Some usr)
    with noerr assms show ?thesis by (simp add: google_verify_def)
  next
    case None
    show ?thesis
    proof (cases "if truthy (profile_email pr)
                  then find (\<lambda>usr. email usr = profile_email pr) (users s) else None")
      case (Some existing)
      show ?thesis
      proof (cases "save_error w")
        case serr: (Some err)
        with noerr None Some assms show ?thesis
          by (simp add: google_verify_def Let_def)
      next
        case nosave: None
        with noerr \<open>find (\<lambda>usr. googleId usr = Some (profile_id pr)) (users s) = None\<close> Some
        have "snd (google_verify w s pr) =
                s\<lparr>users := map (\<lambda>v. if uid v = uid existing
                                     then v\<lparr>googleId := Some (profile_id pr)\<rparr> else v)
                               (users s)\<rparr>"
          by (simp add: google_verify_def Let_def)
        with store_wf_link [OF assms, of "uid existing" "Some (profile_id pr)"]
        show ?thesis by simp
      qed
    next
      case nomail: None
      then have fresh: "truthy (profile_email pr) \<longrightarrow>
                          (\<forall>u\<in>set (users s). email u \<noteq> profile_email pr)"
        by (auto simp: find_None_all split: if_splits)
      let ?new = "\<lparr>uid = next_id s, email = profile_email pr, password = None,
                   googleId = Some (profile_id pr), name = profile_displayName pr\<rparr>"
      show ?thesis
      proof (cases "save_error w")
        case (Some err)
        with noerr None nomail have "snd (google_verify w s pr) = s\<lparr>next_id := next_id s + 1\<rparr>"
          by (simp add: google_verify_def Let_def)
        with store_wf_bump [OF assms] show ?thesis by simp
      next
        case nosave: None
        with noerr \<open>find (\<lambda>usr. googleId usr = Some (profile_id pr)) (users s) = None\<close> nomail
        have "snd (google_verify w s pr) =
                s\<lparr>next_id := next_id s + 1, users := users s @ [?new]\<rparr>"
          by (simp add: google_verify_def Let_def)
        moreover have "store_wf (s\<lparr>next_id := next_id s + 1, users := users s @ [?new]\<rparr>)"
          using fresh by (intro store_wf_append [OF assms]) simp_all
        ultimately show ?thesis by simp
      qed
    qed
  qed
qed

lemma scan_url_next_id: "next_id s \<le> next_id (fst (snd (scan_url e w s req_user body_url)))"
proof (cases "callFlaskPredict (axios_post w) (the (FLASK_URL e)) (the body_url)
                (case req_user of Some usr \<Rightarrow> oid_toString (uid usr) | None \<Rightarrow> ''anonymous'')")
  case (Pair r evs)
  then show ?thesis
    by (simp add: scan_url_def Let_def split: sum.splits option.splits)
qed

lemma scan_url_wf:
  assumes "store_wf s"
  shows "store_wf (fst (snd (scan_url e w s req_user body_url)))"
proof (rule store_wfI)
  let ?s1 = "fst (snd (scan_url e w s req_user body_url))"
  have u: "users ?s1 = users s" by (rule scan_url_users)
  have n: "next_id s \<le> next_id ?s1" by (rule scan_url_next_id)
  show "distinct (map uid (users ?s1))"
    using store_wfD(1) [OF assms] by (simp only: u)
  show "uid x < next_id ?s1" if "x \<in> set (users ?s1)" for x
  proof -
    from that have "x \<in> set (users s)" by (simp only: u)
    from store_wfD(2) [OF assms this] n show ?thesis by linarith
  qed
  show "uid y = uid x"
    if "x \<in> set (users ?s1)" and "y \<in> set (users ?s1)"
      and "truthy (email x)" and "email y = email x" for x y
    using that store_wfD(3) [OF assms, of x y] by (simp only: u)
qed

lemma route_wf:
  assumes "store_wf s"
  shows "store_wf (fst (snd (route e w s sess req_user req)))"
proof (cases req)
  case (POST_signup a b c)
  with signup_wf [OF assms, of w a b c] show ?thesis
    by (auto split: prod.splits)
next
  case (GET_google_callback pr)
  with google_verify_wf [OF assms, of w pr] show ?thesis
    by (auto simp: google_callback_def split: prod.splits verify_result.splits)
next
  case (POST_scan_url body_url)
  with scan_url_wf [OF assms, of e w req_user body_url] show ?thesis
    by (auto split: prod.splits)
qed (use assms in \<open>simp_all split: prod.splits\<close>)

lemma handle_wf:
  assumes "store_wf (fst st)"
  shows "store_wf (fst (snd (handle e w st req)))"
proof (cases st)
  case (Pair s sess)
  with assms have wf: "store_wf s" by simp
  show ?thesis
  proof (cases "case sess of None \<Rightarrow> Inr None | Some i \<Rightarrow> deserializeUser w s i")
    case (Inl err)
    with Pair wf show ?thesis by (simp add: handle_def)
  next
    case (Inr req_user)
    with Pair route_wf [OF wf, of e w "if req_user = None then None else sess" req_user req]
    show ?thesis by (simp add: handle_def)
  qed
qed

lemma run_wf: "store_wf (fst st) \<Longrightarrow> store_wf (fst (run e steps st))"
proof (induction steps arbitrary: st)
  case Nil
  then show ?case by simp
next
  case (Cons step steps)
  obtain w req where "step = (w, req)" by (cases step)
  with Cons.IH [OF handle_wf [OF Cons.prems, of e w req]] show ?case by simp
qed

lemma empty_store_wf: "store_wf empty_store"
  by (rule store_wfI) (simp_all add: empty_store_def)

text \<open>
  Claim C6.  In a well-formed database, when no user has the profile's Google id yet and
  the profile's email is that of an existing user, the login returns that user with \<^verbatim>\<open>googleId\<close> set to
  the profile's id and stores exactly this change: the user's email, password, name and
  id are as before, and so is every other user.
\<close>

theorem login_external_links_local_account:
  assumes "store_wf s" and "find_error w = None" and "save_error w = None"
    and "usr \<in> set (users s)" and "email usr = Some em" and "em \<noteq> []"
    and "profile_email pr = Some em"
    and "\<forall>v\<in>set (users s). googleId v \<noteq> Some (profile_id pr)"
  shows "\<exists>usr'. google_verify w s pr =
                  (Done_ok usr', s\<lparr>users := map (\<lambda>v. if v = usr then usr' else v) (users s)\<rparr>)
               \<and> googleId usr' = Some (profile_id pr)
               \<and> email usr' = email usr \<and> password usr' = password usr
               \<and> name usr' = name usr \<and> uid usr' = uid usr"
proof -
  let ?g = "Some (profile_id pr)"
  from assms(8) have noId: "find (\<lambda>usr. googleId usr = ?g) (users s) = None"
    by (simp add: find_None_all)
  from assms(4,5,7) have "find (\<lambda>usr. email usr = profile_email pr) (users s) \<noteq> None"
    by (auto simp: find_None_all)
  then obtain existing where
    ex: "find (\<lambda>usr. email usr = profile_email pr) (users s) = Some existing"
    by auto
  then have ex_in: "existing \<in> set (users s)" and ex_mail: "email existing = Some em"
    using assms(7) by (auto dest: find_Some_in)
  from assms(6) have tr: "truthy (Some em)" by (simp add: truthy_def)
  from tr assms(5) ex_mail have "truthy (email usr)" and "email existing = email usr"
    by simp_all
  from store_wfD(3) [OF assms(1) assms(4) ex_in this] have "uid existing = uid usr" .
  from store_wf_same_user [OF assms(1) assms(4) ex_in this] have same: "existing = usr" .
  from tr assms(7) have "truthy (profile_email pr)" by simp
  from google_verify_links [OF assms(2,3) noId this ex] same
  have first: "google_verify w s pr =
      (Done_ok (usr\<lparr>googleId := ?g\<rparr>),
       s\<lparr>users := map (\<lambda>v. if uid v = uid usr then v\<lparr>googleId := ?g\<rparr> else v) (users s)\<rparr>)"
    by simp
  have "map (\<lambda>v. if uid v = uid usr then v\<lparr>googleId := ?g\<rparr> else v) (users s) =
        map (\<lambda>v. if v = usr then usr\<lparr>googleId := ?g\<rparr> else v) (users s)"
  proof (rule map_cong [OF refl])
    fix v assume "v \<in> set (users s)"
    with store_wf_same_user [OF assms(1) assms(4)] have "uid v = uid usr \<longleftrightarrow> v = usr"
      by auto
    then show "(if uid v = uid usr then v\<lparr>googleId := ?g\<rparr> else v) =
               (if v = usr then usr\<lparr>googleId := ?g\<rparr> else v)"
      by auto
  qed
  with first show ?thesis by simp
qed

theorem login_external_links_local_account_witness:
  "google_verify ex_io ex_store2 ex_profile_alice =
     (Done_ok (alice\<lparr>googleId := Some ''g-205''\<rparr>),
      ex_store2\<lparr>users := [alice\<lparr>googleId := Some ''g-205''\<rparr>, bob]\<rparr>)
   \<and> email (alice\<lparr>googleId := Some ''g-205''\<rparr>) = Some ''alice@example.com''
   \<and> password (alice\<lparr>googleId := Some ''g-205''\<rparr>) = Some ''$2a$10$secret''"
  using login_external_links_local_account [of ex_store2 ex_io alice "''alice@example.com''"
      ex_profile_alice]
  by (auto simp: ex_defs store_wf_def)

section \<open>Properties of the scan history\<close>

lemma matches_user: "matches strict [(''user'', BId i)] = (\<lambda>d. user d = i)"
  by (rule ext) (simp add: matches_def url_check_get_def)

lemma matches_userId: "matches strict [(''userId'', BId i)] = (\<lambda>d. strict)"
  by (rule ext) (simp add: matches_def url_check_get_def)

lemma matches_userId_phishing:
  "matches strict [(''userId'', BId i), (''prediction'', BStr ''phishing'')] =
     (\<lambda>d. strict \<and> prediction d = ''phishing'')"
  by (rule ext) (simp add: matches_def url_check_get_def)

text \<open>
  The total counts every record of the collection or none, whoever asks.
\<close>

lemma total_counts_every_or_no_record:
  "countDocuments e s [(''userId'', BId i)] =
     (if strictQuery e then int (length (urlchecks s)) else 0)"
  by (simp add: countDocuments_def UrlCheck_find_def matches_userId)

lemma recentScans_eq:
  "recentScans e s usr =
     take 10 (rev (sort_key checkedAt (filter (\<lambda>d. user d = uid usr) (urlchecks s))))"
  by (simp add: recentScans_def sort_checkedAt_desc_def UrlCheck_find_def matches_user)

text \<open>
  The list of the response: the caller's own records, at most ten, latest first.
\<close>

lemma recentScans_own: "set (recentScans e s usr) \<subseteq> {d \<in> set (urlchecks s). user d = uid usr}"
  by (auto simp: recentScans_eq dest: in_set_takeD)

lemma recentScans_length:
  "length (recentScans e s usr) =
     min 10 (length (filter (\<lambda>d. user d = uid usr) (urlchecks s)))"
  by (simp add: recentScans_eq min.commute)

lemma recentScans_latest_first:
  "sorted_wrt (\<lambda>a b. checkedAt b \<le> checkedAt a) (recentScans e s usr)"
proof -
  let ?xs = "sort_key checkedAt (filter (\<lambda>d. user d = uid usr) (urlchecks s))"
  have "sorted (map checkedAt ?xs)" by (rule sorted_sort_key)
  then have "sorted_wrt (\<lambda>a b. checkedAt a \<le> checkedAt b) ?xs"
    by (simp add: sorted_wrt_map)
  then have "sorted_wrt (\<lambda>a b. checkedAt b \<le> checkedAt a) (rev ?xs)"
    by (simp add: sorted_wrt_rev)
  then show ?thesis
    unfolding recentScans_eq by (rule sorted_wrt_take)
qed

lemma insort_key_last:
  "\<forall>x\<in>set ys. f x \<le> f n \<Longrightarrow> f x \<le> f n \<Longrightarrow>
   insort_key f x (ys @ [n]) = insort_key f x ys @ [n]"
  by (induction ys) auto

lemma sort_key_snoc_max:
  "\<forall>x\<in>set xs. f x \<le> f n \<Longrightarrow> sort_key f (xs @ [n]) = sort_key f xs @ [n]"
proof (induction xs)
  case Nil
  then show ?case by simp
next
  case (Cons x xs)
  then have "sort_key f (xs @ [n]) = sort_key f xs @ [n]" by simp
  moreover have "\<forall>y\<in>set (sort_key f xs). f y \<le> f n" using Cons.prems by simp
  ultimately show ?case
    using Cons.prems by (simp add: insort_key_last)
qed

text \<open>
  After a scan that was stored, the caller's history starts with the new record, provided
  every earlier record is older.
\<close>

lemma scan_then_recent:
  assumes "truthy body_url" and "truthy (FLASK_URL e)" and "save_error w = None"
    and "fst (callFlaskPredict (axios_post w) (the (FLASK_URL e)) (the body_url)
                (oid_toString (uid usr))) = Inr (Some result)"
    and "\<forall>d\<in>set (urlchecks s). checkedAt d < now w"
  shows "hd (recentScans e (fst (snd (scan_url e w s (Some usr) body_url))) usr) =
           \<lparr>cid = next_id s, url = the body_url, prediction = res_prediction result,
             confidence = res_confidence result, checkedAt = now w, user = uid usr\<rparr>
         \<and> recentScans e (fst (snd (scan_url e w s (Some usr) body_url))) usr \<noteq> []"
proof -
  let ?new = "\<lparr>cid = next_id s, url = the body_url, prediction = res_prediction result,
               confidence = res_confidence result, checkedAt = now w, user = uid usr\<rparr>"
  let ?own = "filter (\<lambda>d. user d = uid usr) (urlchecks s)"
  from scan_url_predict_returns(2) [of body_url e w "Some usr" result s] assms
  have s1: "urlchecks (fst (snd (scan_url e w s (Some usr) body_url))) = urlchecks s @ [?new]"
    by simp
  have "\<forall>d\<in>set ?own. checkedAt d \<le> checkedAt ?new"
    using assms(5) by (auto intro: less_imp_le)
  then have "sort_key checkedAt (?own @ [?new]) = sort_key checkedAt ?own @ [?new]"
    by (rule sort_key_snoc_max)
  then have "recentScans e (fst (snd (scan_url e w s (Some usr) body_url))) usr =
               take 10 (?new # rev (sort_key checkedAt ?own))"
    by (simp add: recentScans_eq s1)
  then show ?thesis by simp
qed

text \<open>
  Claim C3 at a concrete database: alice and bob have one record each, and alice asks
  for her history.  The list is hers, but the two counts are taken with a filter on
  \<^verbatim>\<open>userId\<close>, a path no record has (the owner is stored under \<^verbatim>\<open>user\<close>): the
  total is 0 with \<^verbatim>\<open>strictQuery\<close> off, and the count of everybody's records, 2, with
  it on, where alice's own total is 1.
\<close>

theorem recent_scans_totals_ignore_owner:
  "length (filter (\<lambda>d. user d = uid alice) (urlchecks ex_store_scans)) = 1
   \<and> recent_scans ex_env ex_io ex_store_scans (Some alice) =
       Json 200 (JObj
         [(''scans'', JArr [JObj [(''_id'', JNum 10), (''url'', JStr ''http://a.test''),
                                  (''prediction'', JStr ''phishing''), (''confidence'', JNum 97),
                                  (''checkedAt'', JDate 500)]]),
          (''total'', JNum 0), (''phishingFound'', JNum 0), (''legitimateFound'', JNum 0)])
   \<and> recent_scans ex_env_strict ex_io ex_store_scans (Some alice) =
       Json 200 (JObj
         [(''scans'', JArr [JObj [(''_id'', JNum 10), (''url'', JStr ''http://a.test''),
                                  (''prediction'', JStr ''phishing''), (''confidence'', JNum 97),
                                  (''checkedAt'', JDate 500)]]),
          (''total'', JNum 2), (''phishingFound'', JNum 1), (''legitimateFound'', JNum 1)])"
  by (simp add: recent_scans_def recentScans_def sort_checkedAt_desc_def countDocuments_def
        UrlCheck_find_def matches_def url_check_get_def select_scan_def ex_defs)


end
